theory Spec2Isabelle
  imports Main
begin

section \<open>The gold passage as the oracle reads it\<close>

text \<open>
  Modelled from the spec: the classes of the UCCA core (nodes and edges of a passage) are
  not among the sources; \<^verbatim>\<open>parser/oracle.py\<close> reads from them exactly the attributes below.
  A node has an \<^verbatim>\<open>ID\<close> and the attribute \<^verbatim>\<open>implicit\<close>; an edge has a parent, a child, a tag
  and the attribute \<^verbatim>\<open>remote\<close>. Python compares edges by object identity, so every edge
  carries its identity \<open>eid\<close>. An edge refers to its end points by the part of the node the
  oracle reads through the edge (\<open>nref\<close>); the node itself (\<open>gnode\<close>) extends it by the
  lists \<^verbatim>\<open>incoming\<close> and \<^verbatim>\<open>outgoing\<close>.
\<close>

record nref =
  ID :: string
  implicit :: bool

record edge =
  eid :: nat
  parent :: nref
  child :: nref
  tag :: string
  remote :: bool

record gnode = nref +
  incoming :: "edge list"
  outgoing :: "edge list"

text \<open>
  \<^verbatim>\<open>passage.layer(layer1.LAYER_ID).all\<close> and \<^verbatim>\<open>passage.nodes.values()\<close>; iterating a node
  yields its outgoing edges.
\<close>

record passage =
  layer1_all :: "gnode list"
  nodes_values :: "gnode list"

definition ROOT_ID :: string where
  "ROOT_ID = ''1.1''"

section \<open>Parser state and actions\<close>

text \<open>
  Modelled from the spec: the classes \<^verbatim>\<open>State\<close> and \<^verbatim>\<open>Action\<close> are not among the sources.
  The oracle reads \<^verbatim>\<open>state.stack\<close> (a list, top last) and \<^verbatim>\<open>state.buffer\<close> (front first),
  and of their elements \<^verbatim>\<open>node_id\<close> and \<^verbatim>\<open>orig_node\<close>. It returns the constants
  \<^verbatim>\<open>SHIFT\<close>, \<^verbatim>\<open>REDUCE\<close>, \<^verbatim>\<open>FINISH\<close>, the calls \<^verbatim>\<open>NODE(tag, node)\<close>, \<^verbatim>\<open>IMPLICIT(tag, node)\<close>,
  \<^verbatim>\<open>SWAP(distance or None)\<close>, and \<^verbatim>\<open>Action(name, tag)\<close> for the four binary edge actions.
\<close>

record snode =
  node_id :: string
  orig_node :: gnode

record state =
  stack :: "snode list"
  buffer :: "snode list"

datatype action =
    SHIFT
  | NODE string nref
  | IMPLICIT string nref
  | REDUCE
  | SWAP "nat option"
  | FINISH
  | Action string string

section \<open>The oracle\<close>

record Oracle =
  nodes_remaining :: "string set"
  edges_remaining :: "edge set"

text \<open>
  The exception of line 76 carries the rendering of the state and of the oracle; the model
  keeps what is rendered. \<open>KeyError\<close> is what \<^verbatim>\<open>set.remove\<close> raises on a missing element.
\<close>

datatype error =
    No_action_is_possible "snode list" "snode list" "string set" "edge set"
  | KeyError

definition Oracle_init :: "passage \<Rightarrow> Oracle" where
  "Oracle_init p =
     \<lparr> nodes_remaining = set (map ID (layer1_all p)) - {ROOT_ID},
       edges_remaining = set (concat (map outgoing (nodes_values p))) \<rparr>"

text \<open>\<^verbatim>\<open>xs[:-k]\<close> for \<open>k \<ge> 1\<close>: all but the last \<open>k\<close> elements, empty when there are fewer.\<close>

definition drop_last :: "nat \<Rightarrow> 'a list \<Rightarrow> 'a list" where
  "drop_last k xs = take (length xs - k) xs"

text \<open>The third conjunct of the loop condition of lines 55 to 57.\<close>

definition deeper_ids :: "snode list \<Rightarrow> nat \<Rightarrow> string set" where
  "deeper_ids stk d = set (map node_id (drop_last (d + 2) stk))"

definition swap_condition :: "string set \<Rightarrow> snode list \<Rightarrow> nat \<Rightarrow> bool" where
  "swap_condition related stk d \<longleftrightarrow> related \<subseteq> deeper_ids stk d"

function swap_loop :: "bool \<Rightarrow> string set \<Rightarrow> snode list \<Rightarrow> nat \<Rightarrow> nat" where
  "swap_loop compound_swap related stk swap_distance =
     (if length stk > swap_distance + 1 \<and> (compound_swap \<or> swap_distance < 1)
           \<and> swap_condition related stk swap_distance
      then swap_loop compound_swap related stk (swap_distance + 1)
      else swap_distance)"
  by pat_completeness auto
termination
  by (relation "measure (\<lambda>(c, r, stk, d). length stk - d)") auto

declare swap_loop.simps [simp del]

definition incoming_remaining :: "Oracle \<Rightarrow> snode \<Rightarrow> edge set" where
  "incoming_remaining orc s0 = edges_remaining orc \<inter> set (incoming (orig_node s0))"

definition outgoing_remaining :: "Oracle \<Rightarrow> snode \<Rightarrow> edge set" where
  "outgoing_remaining orc s0 = edges_remaining orc \<inter> set (outgoing (orig_node s0))"

definition related_ids :: "Oracle \<Rightarrow> snode \<Rightarrow> string set" where
  "related_ids orc s0 =
     (\<lambda>e. ID (child e)) ` outgoing_remaining orc s0 \<union> (\<lambda>e. ID (parent e)) ` incoming_remaining orc s0"

text \<open>\<^verbatim>\<open>set.remove\<close>: raises when the element is missing.\<close>

definition set_remove :: "'a \<Rightarrow> 'a set \<Rightarrow> error + 'a set" where
  "set_remove x S = (if x \<in> S then Inr (S - {x}) else Inl KeyError)"

text \<open>Lines 49 to 51: discharge a binary edge.\<close>

definition binary_action :: "string \<Rightarrow> Oracle \<Rightarrow> edge \<Rightarrow> (error + action) \<times> Oracle" where
  "binary_action prefix orc e =
     (case set_remove e (edges_remaining orc) of
        Inl err \<Rightarrow> (Inl err, orc)
      | Inr es \<Rightarrow>
          (Inr (Action (prefix @ (if remote e then ''-REMOTE'' else ''-EDGE'')) (tag e)),
           orc\<lparr>edges_remaining := es\<rparr>))"

text \<open>
  Lines 70 to 73: discharge a unary edge. The edge is removed first, so a failing removal of
  the node ID leaves the oracle with the edge already gone.
\<close>

definition unary_action ::
  "(string \<Rightarrow> nref \<Rightarrow> action) \<Rightarrow> (edge \<Rightarrow> nref) \<Rightarrow> Oracle \<Rightarrow> edge \<Rightarrow> (error + action) \<times> Oracle" where
  "unary_action act attr orc e =
     (case set_remove e (edges_remaining orc) of
        Inl err \<Rightarrow> (Inl err, orc)
      | Inr es \<Rightarrow>
          (let orc1 = orc\<lparr>edges_remaining := es\<rparr>; node = attr e in
           case set_remove (ID node) (nodes_remaining orc1) of
             Inl err \<Rightarrow> (Inl err, orc1)
           | Inr ns \<Rightarrow> (Inr (act (tag e) node), orc1\<lparr>nodes_remaining := ns\<rparr>)))"

text \<open>Lines 75 to 78.\<close>

definition shift_or_raise :: "Oracle \<Rightarrow> state \<Rightarrow> (error + action) \<times> Oracle" where
  "shift_or_raise orc st =
     (if buffer st = []
      then (Inl (No_action_is_possible (stack st) (buffer st)
                   (nodes_remaining orc) (edges_remaining orc)), orc)
      else (Inr SHIFT, orc))"

text \<open>Lines 62 to 73: the unary edges, \<^verbatim>\<open>NODE\<close> before \<^verbatim>\<open>IMPLICIT\<close>.\<close>

definition unary_edges ::
  "(edge set \<Rightarrow> edge list) \<Rightarrow> Oracle \<Rightarrow> state \<Rightarrow> snode \<Rightarrow> (error + action) \<times> Oracle" where
  "unary_edges iter orc st s0 =
     (case find (\<lambda>e. ID (parent e) \<in> nodes_remaining orc \<and> \<not> remote e)
                (iter (incoming_remaining orc s0)) of
        Some e \<Rightarrow> unary_action NODE parent orc e
      | None \<Rightarrow>
          (case find (\<lambda>e. implicit (child e)) (iter (outgoing_remaining orc s0)) of
             Some e \<Rightarrow> unary_action IMPLICIT child orc e
           | None \<Rightarrow> shift_or_raise orc st))"

text \<open>
  Lines 40 to 60, for a stack of at least two elements whose second element from the top
  is \<open>s1\<close>: the binary edges, \<^verbatim>\<open>RIGHT\<close> before \<^verbatim>\<open>LEFT\<close>, then the swap.
\<close>

definition binary_or_swap ::
  "bool \<Rightarrow> (edge set \<Rightarrow> edge list) \<Rightarrow> Oracle \<Rightarrow> state \<Rightarrow> snode \<Rightarrow> snode
     \<Rightarrow> (error + action) \<times> Oracle" where
  "binary_or_swap compound_swap iter orc st s0 s1 =
     (case find (\<lambda>e. ID (parent e) = node_id s1) (iter (incoming_remaining orc s0)) of
        Some e \<Rightarrow> binary_action ''RIGHT'' orc e
      | None \<Rightarrow>
          (case find (\<lambda>e. ID (child e) = node_id s1) (iter (outgoing_remaining orc s0)) of
             Some e \<Rightarrow> binary_action ''LEFT'' orc e
           | None \<Rightarrow>
               (let swap_distance = swap_loop compound_swap (related_ids orc s0) (stack st) 0 in
                if swap_distance \<noteq> 0
                then (Inr (SWAP (if compound_swap then Some swap_distance else None)), orc)
                else unary_edges iter orc st s0)))"

text \<open>
  \<^verbatim>\<open>Oracle.get_action\<close>. \<open>compound_swap\<close> is \<^verbatim>\<open>Config().compound_swap\<close>. \<open>iter\<close> is the
  order in which Python iterates a set: the two \<^verbatim>\<open>for edge in edges\<close> loops return at the
  first edge the generator yields. The result is the action or the exception, and the
  oracle as the call leaves it.
\<close>

definition get_action ::
  "bool \<Rightarrow> (edge set \<Rightarrow> edge list) \<Rightarrow> Oracle \<Rightarrow> state \<Rightarrow> (error + action) \<times> Oracle" where
  "get_action compound_swap iter orc st =
     (if edges_remaining orc = {} then (Inr FINISH, orc)
      else if stack st \<noteq> [] then
        (let s0 = last (stack st) in
         if incoming_remaining orc s0 \<union> outgoing_remaining orc s0 = {} then (Inr REDUCE, orc)
         else if buffer st \<noteq> [] \<and> node_id (hd (buffer st)) \<in> related_ids orc s0
           then (Inr SHIFT, orc)
         else if length (stack st) > 1
           then binary_or_swap compound_swap iter orc st s0 (stack st ! (length (stack st) - 2))
         else unary_edges iter orc st s0)
      else shift_or_raise orc st)"

text \<open>
  An iteration order is sound on the subsets of \<open>E\<close> when it yields exactly the elements of
  the set it iterates.
\<close>

definition iterates :: "(edge set \<Rightarrow> edge list) \<Rightarrow> edge set \<Rightarrow> bool" where
  "iterates iter E \<longleftrightarrow> (\<forall>S. S \<subseteq> E \<longrightarrow> set (iter S) = S)"

text \<open>The actions that the stack rules of lines 28 to 73 produce.\<close>

fun stack_based :: "action \<Rightarrow> bool" where
  "stack_based SHIFT = False"
| "stack_based FINISH = False"
| "stack_based _ = True"

text \<open>The actions that discharge an edge.\<close>

fun discharging :: "action \<Rightarrow> bool" where
  "discharging (NODE t n) = True"
| "discharging (IMPLICIT t n) = True"
| "discharging (Action name t) =
     (name \<in> {''LEFT-EDGE'', ''RIGHT-EDGE'', ''LEFT-REMOTE'', ''RIGHT-REMOTE''})"
| "discharging _ = False"

text \<open>
  The edge lists of a gold node agree with the end points of the edges in \<open>E\<close>: an edge is
  in \<^verbatim>\<open>incoming\<close> exactly when the node is its child, and in \<^verbatim>\<open>outgoing\<close> exactly when the
  node is its parent.
\<close>

definition index_consistent :: "edge set \<Rightarrow> gnode \<Rightarrow> bool" where
  "index_consistent E n \<longleftrightarrow>
     (\<forall>e\<in>E. (e \<in> set (incoming n)) = (ID (child e) = ID n)) \<and>
     (\<forall>e\<in>E. (e \<in> set (outgoing n)) = (ID (parent e) = ID n))"

text \<open>What a discharging action tells about the edge it discharges.\<close>

fun discharges :: "action \<Rightarrow> edge \<Rightarrow> bool" where
  "discharges (NODE t n) e = (tag e = t \<and> parent e = n)"
| "discharges (IMPLICIT t n) e = (tag e = t \<and> child e = n)"
| "discharges (Action name t) e =
     (tag e = t \<and> (name = (if remote e then ''LEFT-REMOTE'' else ''LEFT-EDGE'')
                     \<or> name = (if remote e then ''RIGHT-REMOTE'' else ''RIGHT-EDGE'')))"
| "discharges _ e = False"



section \<open>A gold passage\<close>

text \<open>
  The terminals are \<open>0.1\<close> to \<open>0.5\<close>. The root \<open>1.1\<close> has the units \<open>1.2\<close>, \<open>1.3\<close> and \<open>1.6\<close>.
  Unit \<open>1.2\<close> has the terminal \<open>0.1\<close> and the implicit units \<open>1.4\<close> and \<open>1.5\<close>. Unit \<open>1.3\<close>
  has the terminals \<open>0.3\<close> and \<open>0.5\<close> and a remote edge to the implicit unit \<open>1.4\<close>. Unit
  \<open>1.6\<close> has the terminals \<open>0.2\<close> and \<open>0.4\<close>, so \<open>1.3\<close> and \<open>1.6\<close> interleave.
\<close>

definition rR :: nref where "rR = \<lparr>ID = ''1.1'', implicit = False\<rparr>"
definition rP :: nref where "rP = \<lparr>ID = ''1.2'', implicit = False\<rparr>"
definition rQ :: nref where "rQ = \<lparr>ID = ''1.3'', implicit = False\<rparr>"
definition rI :: nref where "rI = \<lparr>ID = ''1.4'', implicit = True\<rparr>"
definition rJ :: nref where "rJ = \<lparr>ID = ''1.5'', implicit = True\<rparr>"
definition rS :: nref where "rS = \<lparr>ID = ''1.6'', implicit = False\<rparr>"
definition rA :: nref where "rA = \<lparr>ID = ''0.1'', implicit = False\<rparr>"
definition rX :: nref where "rX = \<lparr>ID = ''0.2'', implicit = False\<rparr>"
definition rB :: nref where "rB = \<lparr>ID = ''0.3'', implicit = False\<rparr>"
definition rY :: nref where "rY = \<lparr>ID = ''0.4'', implicit = False\<rparr>"
definition rD :: nref where "rD = \<lparr>ID = ''0.5'', implicit = False\<rparr>"

definition e1 :: edge where
  "e1 = \<lparr>eid = 1, parent = rR, child = rP, tag = ''H'', remote = False\<rparr>"
definition e2 :: edge where
  "e2 = \<lparr>eid = 2, parent = rR, child = rQ, tag = ''H'', remote = False\<rparr>"
definition e3 :: edge where
  "e3 = \<lparr>eid = 3, parent = rR, child = rS, tag = ''H'', remote = False\<rparr>"
definition e4 :: edge where
  "e4 = \<lparr>eid = 4, parent = rP, child = rA, tag = ''P'', remote = False\<rparr>"
definition e5 :: edge where
  "e5 = \<lparr>eid = 5, parent = rP, child = rI, tag = ''A'', remote = False\<rparr>"
definition e6 :: edge where
  "e6 = \<lparr>eid = 6, parent = rP, child = rJ, tag = ''D'', remote = False\<rparr>"
definition e7 :: edge where
  "e7 = \<lparr>eid = 7, parent = rQ, child = rB, tag = ''P'', remote = False\<rparr>"
definition e8 :: edge where
  "e8 = \<lparr>eid = 8, parent = rQ, child = rD, tag = ''A'', remote = False\<rparr>"
definition e9 :: edge where
  "e9 = \<lparr>eid = 9, parent = rQ, child = rI, tag = ''A'', remote = True\<rparr>"
definition e10 :: edge where
  "e10 = \<lparr>eid = 10, parent = rS, child = rX, tag = ''P'', remote = False\<rparr>"
definition e11 :: edge where
  "e11 = \<lparr>eid = 11, parent = rS, child = rY, tag = ''A'', remote = False\<rparr>"

definition gnode_of :: "nref \<Rightarrow> edge list \<Rightarrow> edge list \<Rightarrow> gnode" where
  "gnode_of r ins outs = nref.extend r \<lparr>incoming = ins, outgoing = outs\<rparr>"

definition gR :: gnode where "gR = gnode_of rR [] [e1, e2, e3]"
definition gP :: gnode where "gP = gnode_of rP [e1] [e4, e5, e6]"
definition gQ :: gnode where "gQ = gnode_of rQ [e2] [e7, e8, e9]"
definition gS :: gnode where "gS = gnode_of rS [e3] [e10, e11]"
definition gI :: gnode where "gI = gnode_of rI [e5, e9] []"
definition gJ :: gnode where "gJ = gnode_of rJ [e6] []"
definition gA :: gnode where "gA = gnode_of rA [e4] []"
definition gX :: gnode where "gX = gnode_of rX [e10] []"
definition gB :: gnode where "gB = gnode_of rB [e7] []"
definition gY :: gnode where "gY = gnode_of rY [e11] []"
definition gD :: gnode where "gD = gnode_of rD [e8] []"

definition gold :: passage where
  "gold = \<lparr>layer1_all = [gR, gP, gQ, gI, gJ, gS],
            nodes_values = [gA, gX, gB, gY, gD, gR, gP, gQ, gI, gJ, gS]\<rparr>"

text \<open>A state node for a gold node: \<^verbatim>\<open>node_id\<close> is the ID of \<^verbatim>\<open>orig_node\<close>.\<close>

definition snode_of :: "gnode \<Rightarrow> snode" where
  "snode_of g = \<lparr>node_id = ID g, orig_node = g\<rparr>"

text \<open>An iteration order: the elements of the set in the order of a given list.\<close>

definition iter_list :: "edge list \<Rightarrow> edge set \<Rightarrow> edge list" where
  "iter_list order S = filter (\<lambda>e. e \<in> S) order"

definition all_edges :: "edge list" where
  "all_edges = [e1, e2, e3, e4, e5, e6, e7, e8, e9, e10, e11]"

text \<open>A parser state over gold nodes, and the oracle states used below.\<close>

definition state_of :: "gnode list \<Rightarrow> gnode list \<Rightarrow> state" where
  "state_of stk buf = \<lparr>stack = map snode_of stk, buffer = map snode_of buf\<rparr>"


definition orc19 :: Oracle where
  "orc19 = \<lparr>nodes_remaining = {}, edges_remaining = {e2, e3, e8, e9, e11}\<rparr>"

definition orc_swap :: Oracle where
  "orc_swap = \<lparr>nodes_remaining = {}, edges_remaining = {e2, e3, e11}\<rparr>"

text \<open>
  Successive calls of \<^verbatim>\<open>get_action\<close> on one oracle object, one for each of the given
  parser states; an exception ends the calls. The driver that produces the parser states
  is not among the sources, so the states are given.
\<close>

fun oracle_calls ::
  "bool \<Rightarrow> (edge set \<Rightarrow> edge list) \<Rightarrow> Oracle \<Rightarrow> state list \<Rightarrow> (error + action) list \<times> Oracle" where
  "oracle_calls compound_swap iter orc [] = ([], orc)"
| "oracle_calls compound_swap iter orc (st # sts) =
     (case get_action compound_swap iter orc st of
        (Inl err, orc') \<Rightarrow> ([Inl err], orc')
      | (Inr a, orc') \<Rightarrow>
          (case oracle_calls compound_swap iter orc' sts of
             (rs, orc'') \<Rightarrow> (Inr a # rs, orc'')))"

text \<open>
  Parser states for the passage \<open>gold\<close>: the stack starts with the root and the buffer with
  the terminals, \<^verbatim>\<open>SHIFT\<close> moves the front of the buffer onto the stack, \<^verbatim>\<open>REDUCE\<close> pops
  the stack. In \<open>gold_states\<close> a node created by \<^verbatim>\<open>NODE\<close> or \<^verbatim>\<open>IMPLICIT\<close> is pushed onto
  the stack; in \<open>gold_states_buffer\<close> it is put at the front of the buffer.
\<close>

definition gold_states :: "state list" where
  "gold_states =
    [state_of [gR] [gA, gX, gB, gY, gD],
     state_of [gR, gA] [gX, gB, gY, gD],
     state_of [gR, gA, gP] [gX, gB, gY, gD],
     state_of [gR, gA, gP, gI] [gX, gB, gY, gD],
     state_of [gR, gA, gP, gI, gX] [gB, gY, gD],
     state_of [gR, gA, gP, gI, gX, gS] [gB, gY, gD],
     state_of [gR, gA, gP, gI, gX, gS, gB] [gY, gD],
     state_of [gR, gA, gP, gI, gX, gS, gB, gQ] [gY, gD]]"

definition gold_states_buffer :: "state list" where
  "gold_states_buffer =
    [state_of [gR] [gA, gX, gB, gY, gD],
     state_of [gR, gA] [gX, gB, gY, gD],
     state_of [gR, gA] [gP, gX, gB, gY, gD],
     state_of [gR] [gP, gX, gB, gY, gD],
     state_of [gR, gP] [gX, gB, gY, gD],
     state_of [gR, gP] [gX, gB, gY, gD],
     state_of [gR, gP] [gI, gX, gB, gY, gD],
     state_of [gR, gP] [gJ, gI, gX, gB, gY, gD],
     state_of [gR] [gJ, gI, gX, gB, gY, gD],
     state_of [gR, gJ] [gI, gX, gB, gY, gD],
     state_of [gR] [gI, gX, gB, gY, gD],
     state_of [gR, gI] [gX, gB, gY, gD],
     state_of [gR, gI, gX] [gB, gY, gD],
     state_of [gR, gI, gX] [gS, gB, gY, gD],
     state_of [gR, gI] [gS, gB, gY, gD],
     state_of [gR, gI, gS] [gB, gY, gD],
     state_of [gR, gI, gS, gB] [gY, gD],
     state_of [gR, gI, gS, gB] [gQ, gY, gD],
     state_of [gR, gI, gS] [gQ, gY, gD],
     state_of [gR, gI, gS, gQ] [gY, gD]]"

section \<open>A second gold passage\<close>

text \<open>
  The terminals are \<open>0.1\<close> and \<open>0.2\<close>. The root \<open>1.1\<close> has the units \<open>1.2\<close> and \<open>1.3\<close>. Unit
  \<open>1.3\<close> has the terminal \<open>0.2\<close> and the implicit unit \<open>1.4\<close>; unit \<open>1.2\<close> has the terminal
  \<open>0.1\<close> and a remote edge to the implicit unit \<open>1.4\<close>.
\<close>

definition f4 :: edge where
  "f4 = \<lparr>eid = 24, parent = rQ, child = rX, tag = ''P'', remote = False\<rparr>"
definition f5 :: edge where
  "f5 = \<lparr>eid = 25, parent = rP, child = rI, tag = ''A'', remote = True\<rparr>"
definition f6 :: edge where
  "f6 = \<lparr>eid = 26, parent = rQ, child = rI, tag = ''A'', remote = False\<rparr>"

definition hR :: gnode where "hR = gnode_of rR [] [e1, e2]"
definition hP :: gnode where "hP = gnode_of rP [e1] [e4, f5]"
definition hQ :: gnode where "hQ = gnode_of rQ [e2] [f4, f6]"
definition hI :: gnode where "hI = gnode_of rI [f5, f6] []"
definition hA :: gnode where "hA = gnode_of rA [e4] []"
definition hX :: gnode where "hX = gnode_of rX [f4] []"

definition gold2 :: passage where
  "gold2 = \<lparr>layer1_all = [hR, hP, hQ, hI], nodes_values = [hA, hX, hR, hP, hQ, hI]\<rparr>"

definition gold2_edges :: "edge list" where
  "gold2_edges = [e1, e2, e4, f4, f5, f6]"

text \<open>Parser states for \<open>gold2\<close>, with the two placements of created nodes as above.\<close>

definition gold2_states :: "state list" where
  "gold2_states =
    [state_of [hR] [hA, hX],
     state_of [hR, hA] [hX],
     state_of [hR, hA, hP] [hX]]"

definition gold2_states_buffer :: "state list" where
  "gold2_states_buffer =
    [state_of [hR] [hA, hX],
     state_of [hR, hA] [hX],
     state_of [hR, hA] [hP, hX],
     state_of [hR] [hP, hX],
     state_of [hR, hP] [hX],
     state_of [hR, hP] [hX]]"

section \<open>Replaying the actions\<close>









text \<open>
  A placement only rearranges: after it, stack and buffer hold nodes that were there
  before, or the created node.
\<close>

definition nodes_of :: "state \<Rightarrow> snode set" where
  "nodes_of st = set (stack st) \<union> set (buffer st)"













text \<open>
  The effect of one call on the remaining sets: both only shrink; an action that discharges
  an edge removes exactly that edge, every other action leaves the edges as they are.
\<close>

abbreviation frame_ok :: "Oracle \<Rightarrow> (error + action) \<Rightarrow> Oracle \<Rightarrow> bool" where
  "frame_ok orc res orc' \<equiv>
    edges_remaining orc' \<subseteq> edges_remaining orc \<and>
    nodes_remaining orc' \<subseteq> nodes_remaining orc \<and>
    (\<forall>a. res = Inr a \<longrightarrow>
       (discharging a \<and>
          (\<exists>e\<in>edges_remaining orc. discharges a e \<and>
             edges_remaining orc' = edges_remaining orc - {e}))
       \<or> ((a = SHIFT \<or> a = REDUCE \<or> a = FINISH \<or> (\<exists>d. a = SWAP d)) \<and>
             edges_remaining orc' = edges_remaining orc))"

section \<open>Basic facts\<close>

lemma find_iter_Some:
  "iterates iter E \<Longrightarrow> S \<subseteq> E \<Longrightarrow> find P (iter S) = Some e \<Longrightarrow> e \<in> S \<and> P e"
  unfolding iterates_def by (metis find_Some_iff nth_mem)

lemma find_iter_None:
  "iterates iter E \<Longrightarrow> S \<subseteq> E \<Longrightarrow> (find P (iter S) = None) = (\<forall>e\<in>S. \<not> P e)"
  unfolding iterates_def by (auto simp: find_None_iff)

lemma incoming_remaining_subset: "incoming_remaining orc s \<subseteq> edges_remaining orc"
  by (simp add: incoming_remaining_def)

lemma outgoing_remaining_subset: "outgoing_remaining orc s \<subseteq> edges_remaining orc"
  by (simp add: outgoing_remaining_def)

lemma iterates_iter_list: "E \<subseteq> set order \<Longrightarrow> iterates (iter_list order) E"
  by (auto simp: iterates_def iter_list_def)

lemma binary_action_in:
  "e \<in> edges_remaining orc \<Longrightarrow>
   binary_action p orc e =
     (Inr (Action (p @ (if remote e then ''-REMOTE'' else ''-EDGE'')) (tag e)),
      orc\<lparr>edges_remaining := edges_remaining orc - {e}\<rparr>)"
  by (simp add: binary_action_def set_remove_def)

lemma unary_action_in:
  "e \<in> edges_remaining orc \<Longrightarrow>
   unary_action act attr orc e =
     (if ID (attr e) \<in> nodes_remaining orc
      then (Inr (act (tag e) (attr e)),
            orc\<lparr>edges_remaining := edges_remaining orc - {e},
                nodes_remaining := nodes_remaining orc - {ID (attr e)}\<rparr>)
      else (Inl KeyError, orc\<lparr>edges_remaining := edges_remaining orc - {e}\<rparr>))"
  by (simp add: unary_action_def set_remove_def Let_def)


lemma binary_action_shape:
  "fst (binary_action p orc e) = Inr a \<Longrightarrow> \<exists>n t. a = Action n t"
  by (auto simp: binary_action_def set_remove_def split: if_splits)

lemma unary_action_shape:
  "fst (unary_action act attr orc e) = Inr a \<Longrightarrow> \<exists>t n. a = act t n"
  by (auto simp: unary_action_def set_remove_def Let_def split: if_splits)

lemma unary_edges_not_REDUCE: "fst (unary_edges iter orc st s0) \<noteq> Inr REDUCE"
  by (auto simp: unary_edges_def shift_or_raise_def split: option.splits dest: unary_action_shape)

lemma binary_or_swap_not_REDUCE: "fst (binary_or_swap cs iter orc st s0 s1) \<noteq> Inr REDUCE"
  by (auto simp: binary_or_swap_def Let_def unary_edges_not_REDUCE split: option.splits
           dest: binary_action_shape)

lemma no_incident_iff:
  assumes "index_consistent E n"
  shows "(E \<inter> set (incoming n) \<union> E \<inter> set (outgoing n) = {})
         = (\<forall>e\<in>E. ID (parent e) \<noteq> ID n \<and> ID (child e) \<noteq> ID n)"
  using assms unfolding index_consistent_def by blast

lemma shift_or_raise_frame:
  "shift_or_raise orc st = (res, orc') \<Longrightarrow> frame_ok orc res orc'"
  by (auto simp: shift_or_raise_def split: if_splits)

lemma binary_action_frame:
  assumes "e \<in> edges_remaining orc" "p = ''LEFT'' \<or> p = ''RIGHT''"
    and "binary_action p orc e = (res, orc')"
  shows "frame_ok orc res orc'"
  using assms by (auto simp: binary_action_in)

lemma unary_action_frame_NODE:
  assumes "e \<in> edges_remaining orc" and "unary_action NODE parent orc e = (res, orc')"
  shows "frame_ok orc res orc'"
  using assms by (auto simp: unary_action_in split: if_splits)

lemma unary_action_frame_IMPLICIT:
  assumes "e \<in> edges_remaining orc" and "unary_action IMPLICIT child orc e = (res, orc')"
  shows "frame_ok orc res orc'"
  using assms by (auto simp: unary_action_in split: if_splits)

lemma unary_edges_frame:
  assumes it: "iterates iter (edges_remaining orc)"
    and r: "unary_edges iter orc st s0 = (res, orc')"
  shows "frame_ok orc res orc'"
proof (cases "find (\<lambda>e. ID (parent e) \<in> nodes_remaining orc \<and> \<not> remote e)
                (iter (incoming_remaining orc s0))")
  case (Some e)
  then have "e \<in> edges_remaining orc"
    using find_iter_Some [OF it incoming_remaining_subset Some] incoming_remaining_subset by blast
  with r Some show ?thesis
    using unary_action_frame_NODE [of e orc res orc'] by (simp add: unary_edges_def)
next
  case None
  note n1 = None
  show ?thesis
  proof (cases "find (\<lambda>e. implicit (child e)) (iter (outgoing_remaining orc s0))")
    case (Some e)
    then have "e \<in> edges_remaining orc"
      using find_iter_Some [OF it outgoing_remaining_subset Some] outgoing_remaining_subset by blast
    with r n1 Some show ?thesis
      using unary_action_frame_IMPLICIT [of e orc res orc'] by (simp add: unary_edges_def)
  next
    case None
    with r n1 show ?thesis
      using shift_or_raise_frame [of orc st res orc'] by (simp add: unary_edges_def)
  qed
qed

lemma binary_or_swap_frame:
  assumes it: "iterates iter (edges_remaining orc)"
    and r: "binary_or_swap cs iter orc st s0 s1 = (res, orc')"
  shows "frame_ok orc res orc'"
proof (cases "find (\<lambda>e. ID (parent e) = node_id s1) (iter (incoming_remaining orc s0))")
  case (Some e)
  then have "e \<in> edges_remaining orc"
    using find_iter_Some [OF it incoming_remaining_subset Some] incoming_remaining_subset by blast
  with r Some show ?thesis
    using binary_action_frame [of e orc "''RIGHT''" res orc'] by (simp add: binary_or_swap_def)
next
  case None
  note n1 = None
  show ?thesis
  proof (cases "find (\<lambda>e. ID (child e) = node_id s1) (iter (outgoing_remaining orc s0))")
    case (Some e)
    then have "e \<in> edges_remaining orc"
      using find_iter_Some [OF it outgoing_remaining_subset Some] outgoing_remaining_subset by blast
    with r n1 Some show ?thesis
      using binary_action_frame [of e orc "''LEFT''" res orc'] by (simp add: binary_or_swap_def)
  next
    case None
    show ?thesis
    proof (cases "swap_loop cs (related_ids orc s0) (stack st) 0 = 0")
      case True
      with r n1 None show ?thesis
        using unary_edges_frame [OF it, of st s0 res orc'] by (simp add: binary_or_swap_def)
    next
      case False
      with r n1 None show ?thesis by (auto simp: binary_or_swap_def Let_def)
    qed
  qed
qed

lemma swap_loop_ge: "d0 \<le> swap_loop cs rel stk d0"
proof (induction cs rel stk d0 rule: swap_loop.induct)
  case (1 cs rel stk d)
  show ?case
  proof (cases "length stk > d + 1 \<and> (cs \<or> d < 1) \<and> swap_condition rel stk d")
    case True
    with "1.IH" have "d + 1 \<le> swap_loop cs rel stk (d + 1)" by simp
    with True show ?thesis by (subst swap_loop.simps) simp
  next
    case False
    then show ?thesis by (subst swap_loop.simps) auto
  qed
qed

lemma swap_loop_holds:
  "d0 \<le> d \<Longrightarrow> d < swap_loop cs rel stk d0 \<Longrightarrow>
   length stk > d + 1 \<and> (cs \<or> d < 1) \<and> swap_condition rel stk d"
proof (induction cs rel stk d0 rule: swap_loop.induct)
  case (1 cs rel stk d0)
  show ?case
  proof (cases "length stk > d0 + 1 \<and> (cs \<or> d0 < 1) \<and> swap_condition rel stk d0")
    case True
    then have eq: "swap_loop cs rel stk d0 = swap_loop cs rel stk (d0 + 1)"
      by (subst swap_loop.simps) simp
    show ?thesis
    proof (cases "d = d0")
      case True
      with \<open>length stk > d0 + 1 \<and> (cs \<or> d0 < 1) \<and> swap_condition rel stk d0\<close>
      show ?thesis by simp
    next
      case False
      with "1.prems" have "d0 + 1 \<le> d" by simp
      with "1.IH" True "1.prems" eq show ?thesis by simp
    qed
  next
    case False
    then have "swap_loop cs rel stk d0 = d0" by (subst swap_loop.simps) auto
    with "1.prems" show ?thesis by simp
  qed
qed

lemma swap_loop_stops:
  "\<not> (length stk > swap_loop cs rel stk d0 + 1 \<and> (cs \<or> swap_loop cs rel stk d0 < 1)
      \<and> swap_condition rel stk (swap_loop cs rel stk d0))"
proof (induction cs rel stk d0 rule: swap_loop.induct)
  case (1 cs rel stk d0)
  show ?case
  proof (cases "length stk > d0 + 1 \<and> (cs \<or> d0 < 1) \<and> swap_condition rel stk d0")
    case True
    then have eq: "swap_loop cs rel stk d0 = swap_loop cs rel stk (d0 + 1)"
      by (subst swap_loop.simps) simp
    from "1.IH" True show ?thesis unfolding eq by simp
  next
    case False
    then have "swap_loop cs rel stk d0 = d0" by (subst swap_loop.simps) auto
    with False show ?thesis by simp
  qed
qed

lemma deeper_ids_mono: "d \<le> d' \<Longrightarrow> deeper_ids stk d' \<subseteq> deeper_ids stk d"
  unfolding deeper_ids_def drop_last_def
  by (simp add: take_map [symmetric] set_take_subset_set_take)

lemma swap_condition_antimono:
  "d \<le> d' \<Longrightarrow> swap_condition rel stk d' \<Longrightarrow> swap_condition rel stk d"
  unfolding swap_condition_def using deeper_ids_mono by blast

lemma swap_condition_short:
  "rel \<noteq> {} \<Longrightarrow> length stk \<le> d + 2 \<Longrightarrow> \<not> swap_condition rel stk d"
  by (simp add: swap_condition_def deeper_ids_def drop_last_def)

lemma swap_loop_noncompound: "swap_loop False rel stk 0 \<le> 1"
proof (rule ccontr)
  assume "\<not> swap_loop False rel stk 0 \<le> 1"
  then have "1 < swap_loop False rel stk 0" by simp
  from swap_loop_holds [of 0 1 False rel stk] this show False by simp
qed

lemma swap_loop_compound:
  assumes "rel \<noteq> {}"
  shows "swap_condition rel stk d \<longleftrightarrow> d < swap_loop True rel stk 0"
proof
  assume c: "swap_condition rel stk d"
  show "d < swap_loop True rel stk 0"
  proof (rule ccontr)
    assume "\<not> d < swap_loop True rel stk 0"
    then have "swap_loop True rel stk 0 \<le> d" by simp
    from swap_condition_antimono [OF this c]
    have c': "swap_condition rel stk (swap_loop True rel stk 0)" .
    with swap_condition_short [OF assms, of stk "swap_loop True rel stk 0"]
    have "length stk > swap_loop True rel stk 0 + 1" by (cases "length stk \<le> swap_loop True rel stk 0 + 2") auto
    with c' swap_loop_stops [where stk = stk and cs = True and rel = rel and ?d0.0 = 0] show False by simp
  qed
next
  assume "d < swap_loop True rel stk 0"
  with swap_loop_holds [of 0 d True rel stk] show "swap_condition rel stk d" by simp
qed

lemma unary_edges_not_SWAP: "fst (unary_edges iter orc st s0) \<noteq> Inr (SWAP x)"
  by (auto simp: unary_edges_def shift_or_raise_def split: option.splits dest: unary_action_shape)

lemma binary_or_swap_SWAP:
  assumes "fst (binary_or_swap cs iter orc st s0 s1) = Inr (SWAP x)"
  shows "swap_loop cs (related_ids orc s0) (stack st) 0 \<noteq> 0 \<and>
         x = (if cs then Some (swap_loop cs (related_ids orc s0) (stack st) 0) else None)"
  using assms
  by (auto simp: binary_or_swap_def Let_def unary_edges_not_SWAP
      split: option.splits if_splits dest: binary_action_shape)

lemma get_action_SWAP:
  assumes "fst (get_action cs iter orc st) = Inr (SWAP x)"
  shows "related_ids orc (last (stack st)) \<noteq> {} \<and>
         fst (binary_or_swap cs iter orc st (last (stack st)) (stack st ! (length (stack st) - 2)))
           = Inr (SWAP x)"
  using assms
  by (auto simp: get_action_def Let_def shift_or_raise_def related_ids_def unary_edges_not_SWAP
      split: if_splits)


subsection \<open>The exceptions\<close>

text \<open>
  \<^verbatim>\<open>KeyError\<close> comes only from the removal of the child's ID in the \<^verbatim>\<open>IMPLICIT\<close> branch: the
  removals of edges and the removal of the parent's ID for \<^verbatim>\<open>NODE\<close> never fail. The
  exception of line 76 is raised only with remaining edges and an empty buffer; it carries
  stack, buffer and the two remaining sets, and leaves the oracle unchanged.
\<close>

lemma unary_edges_KeyError:
  assumes it: "iterates iter (edges_remaining orc)"
    and r: "fst (unary_edges iter orc st s0) = Inl KeyError"
  shows "\<exists>e\<in>outgoing_remaining orc s0. implicit (child e) \<and> ID (child e) \<notin> nodes_remaining orc"
proof (cases "find (\<lambda>e. ID (parent e) \<in> nodes_remaining orc \<and> \<not> remote e)
                (iter (incoming_remaining orc s0))")
  case (Some e)
  from find_iter_Some [OF it incoming_remaining_subset Some]
  have e: "e \<in> incoming_remaining orc s0" "ID (parent e) \<in> nodes_remaining orc" by simp_all
  then have "e \<in> edges_remaining orc" using incoming_remaining_subset by blast
  with r Some e show ?thesis by (simp add: unary_edges_def unary_action_in)
next
  case None
  note n1 = None
  show ?thesis
  proof (cases "find (\<lambda>e. implicit (child e)) (iter (outgoing_remaining orc s0))")
    case (Some e)
    from find_iter_Some [OF it outgoing_remaining_subset Some]
    have e: "e \<in> outgoing_remaining orc s0" "implicit (child e)" by simp_all
    then have "e \<in> edges_remaining orc" using outgoing_remaining_subset by blast
    with r n1 Some have "ID (child e) \<notin> nodes_remaining orc"
      by (auto simp: unary_edges_def unary_action_in split: if_splits)
    with e show ?thesis by blast
  next
    case None
    with r n1 show ?thesis by (simp add: unary_edges_def shift_or_raise_def split: if_splits)
  qed
qed

lemma binary_or_swap_KeyError:
  assumes it: "iterates iter (edges_remaining orc)"
    and r: "fst (binary_or_swap cs iter orc st s0 s1) = Inl KeyError"
  shows "\<exists>e\<in>outgoing_remaining orc s0. implicit (child e) \<and> ID (child e) \<notin> nodes_remaining orc"
proof (cases "find (\<lambda>e. ID (parent e) = node_id s1) (iter (incoming_remaining orc s0))")
  case (Some e)
  from find_iter_Some [OF it incoming_remaining_subset Some]
  have "e \<in> edges_remaining orc" using incoming_remaining_subset by blast
  with r Some show ?thesis by (simp add: binary_or_swap_def binary_action_in)
next
  case None
  note n1 = None
  show ?thesis
  proof (cases "find (\<lambda>e. ID (child e) = node_id s1) (iter (outgoing_remaining orc s0))")
    case (Some e)
    from find_iter_Some [OF it outgoing_remaining_subset Some]
    have "e \<in> edges_remaining orc" using outgoing_remaining_subset by blast
    with r n1 Some show ?thesis by (simp add: binary_or_swap_def binary_action_in)
  next
    case None
    with r n1 have "fst (unary_edges iter orc st s0) = Inl KeyError"
      by (simp add: binary_or_swap_def Let_def split: if_splits)
    from unary_edges_KeyError [OF it this] show ?thesis .
  qed
qed

lemma KeyError_only_from_IMPLICIT:
  assumes it: "iterates iter (edges_remaining orc)"
    and r: "fst (get_action cs iter orc st) = Inl KeyError"
  shows "stack st \<noteq> [] \<and>
         (\<exists>e\<in>outgoing_remaining orc (last (stack st)).
             implicit (child e) \<and> ID (child e) \<notin> nodes_remaining orc)"
proof -
  from r have ne: "stack st \<noteq> []"
    by (auto simp: get_action_def shift_or_raise_def split: if_splits)
  from r ne have "fst (binary_or_swap cs iter orc st (last (stack st))
                        (stack st ! (length (stack st) - 2))) = Inl KeyError
                  \<or> fst (unary_edges iter orc st (last (stack st))) = Inl KeyError"
    by (auto simp: get_action_def Let_def split: if_splits)
  with binary_or_swap_KeyError [OF it] unary_edges_KeyError [OF it] ne show ?thesis by blast
qed

lemma No_action_is_possible_payload:
  assumes "get_action cs iter orc st = (Inl (No_action_is_possible s b n es), orc')"
  shows "edges_remaining orc \<noteq> {} \<and> buffer st = [] \<and> s = stack st \<and> b = buffer st
         \<and> n = nodes_remaining orc \<and> es = edges_remaining orc \<and> orc' = orc"
proof -
  have u: "unary_edges iter orc st s0 = (Inl (No_action_is_possible s b n es), orc') \<Longrightarrow>
      buffer st = [] \<and> s = stack st \<and> b = buffer st
         \<and> n = nodes_remaining orc \<and> es = edges_remaining orc \<and> orc' = orc" for s0
    by (auto simp: unary_edges_def unary_action_def set_remove_def Let_def shift_or_raise_def
        split: option.splits if_splits)
  have bs: "binary_or_swap cs iter orc st s0 s1 = (Inl (No_action_is_possible s b n es), orc') \<Longrightarrow>
      buffer st = [] \<and> s = stack st \<and> b = buffer st
         \<and> n = nodes_remaining orc \<and> es = edges_remaining orc \<and> orc' = orc" for s0 s1
    using u [of s0]
    by (auto simp: binary_or_swap_def binary_action_def set_remove_def Let_def
        split: option.splits if_splits)
  from assms u bs show ?thesis
    by (auto simp: get_action_def Let_def shift_or_raise_def split: if_splits)
qed

subsection \<open>The replay\<close>

















lemma second_in_nodes_of:
  "length (stack st) > 1 \<Longrightarrow> stack st ! (length (stack st) - 2) \<in> nodes_of st"
  by (simp add: nodes_of_def)








subsection \<open>The examples\<close>

lemma edges_orc19: "edges_remaining orc19 \<subseteq> set all_edges"
  by code_simp

section \<open>The claims\<close>




text \<open>
  Claim C2. A call that returns \<^verbatim>\<open>NODE\<close>, \<^verbatim>\<open>IMPLICIT\<close>, \<^verbatim>\<open>LEFT-EDGE\<close>, \<^verbatim>\<open>RIGHT-EDGE\<close>,
  \<^verbatim>\<open>LEFT-REMOTE\<close> or \<^verbatim>\<open>RIGHT-REMOTE\<close> removes exactly one element from \<open>edges_remaining\<close>,
  the edge the action discharges; a call that returns \<^verbatim>\<open>SHIFT\<close>, \<^verbatim>\<open>REDUCE\<close>, \<^verbatim>\<open>SWAP\<close> or
  \<^verbatim>\<open>FINISH\<close> leaves \<open>edges_remaining\<close> unchanged; every returned action is of one of
  these two kinds; and after every call, also one that raises, \<open>edges_remaining\<close> and
  \<open>nodes_remaining\<close> are subsets of what they were. The iteration order is any order that
  yields the elements of the set iterated.
\<close>

theorem C2_remaining_sets_shrink:
  assumes "iterates iter (edges_remaining orc)"
    and "get_action cs iter orc st = (res, orc')"
  shows "edges_remaining orc' \<subseteq> edges_remaining orc \<and>
    nodes_remaining orc' \<subseteq> nodes_remaining orc \<and>
    (\<forall>a. res = Inr a \<longrightarrow>
       (discharging a \<and>
          (\<exists>e\<in>edges_remaining orc. discharges a e \<and>
             edges_remaining orc' = edges_remaining orc - {e}))
       \<or> ((a = SHIFT \<or> a = REDUCE \<or> a = FINISH \<or> (\<exists>d. a = SWAP d)) \<and>
             edges_remaining orc' = edges_remaining orc))"
proof -
  consider (fin) "edges_remaining orc = {}"
    | (nostack) "edges_remaining orc \<noteq> {}" "stack st = []"
    | (red) "edges_remaining orc \<noteq> {}" "stack st \<noteq> []"
        "incoming_remaining orc (last (stack st)) \<union> outgoing_remaining orc (last (stack st)) = {}"
    | (shift) "edges_remaining orc \<noteq> {}" "stack st \<noteq> []"
        "incoming_remaining orc (last (stack st)) \<union> outgoing_remaining orc (last (stack st)) \<noteq> {}"
        "buffer st \<noteq> [] \<and> node_id (hd (buffer st)) \<in> related_ids orc (last (stack st))"
    | (bin) "edges_remaining orc \<noteq> {}" "stack st \<noteq> []"
        "incoming_remaining orc (last (stack st)) \<union> outgoing_remaining orc (last (stack st)) \<noteq> {}"
        "\<not> (buffer st \<noteq> [] \<and> node_id (hd (buffer st)) \<in> related_ids orc (last (stack st)))"
        "length (stack st) > 1"
    | (un) "edges_remaining orc \<noteq> {}" "stack st \<noteq> []"
        "incoming_remaining orc (last (stack st)) \<union> outgoing_remaining orc (last (stack st)) \<noteq> {}"
        "\<not> (buffer st \<noteq> [] \<and> node_id (hd (buffer st)) \<in> related_ids orc (last (stack st)))"
        "\<not> length (stack st) > 1"
    by blast
  then show ?thesis
  proof cases
    case fin
    with assms(2) show ?thesis by (auto simp: get_action_def)
  next
    case nostack
    with assms(2) show ?thesis
      using shift_or_raise_frame [of orc st res orc'] by (simp add: get_action_def)
  next
    case red
    with assms(2) have "(res, orc') = (Inr REDUCE, orc)" by (simp add: get_action_def Let_def)
    then show ?thesis by auto
  next
    case shift
    with assms(2) have "(res, orc') = (Inr SHIFT, orc)"
      by (auto simp: get_action_def Let_def split: if_splits)
    then show ?thesis by auto
  next
    case bin
    with assms(2) have "binary_or_swap cs iter orc st (last (stack st))
        (stack st ! (length (stack st) - 2)) = (res, orc')"
      by (auto simp: get_action_def Let_def split: if_splits)
    then show ?thesis by (rule binary_or_swap_frame [OF assms(1)])
  next
    case un
    with assms(2) have "unary_edges iter orc st (last (stack st)) = (res, orc')"
      by (auto simp: get_action_def Let_def split: if_splits)
    then show ?thesis by (rule unary_edges_frame [OF assms(1)])
  qed
qed

theorem C2_remaining_sets_shrink_witness:
  "get_action False (iter_list all_edges) orc19 (state_of [gR, gI, gQ] [gY, gD])
     = (Inr (Action ''LEFT-REMOTE'' ''A''), orc19\<lparr>edges_remaining := {e2, e3, e8, e11}\<rparr>)
   \<and> discharging (Action ''LEFT-REMOTE'' ''A'')
   \<and> edges_remaining (orc19\<lparr>edges_remaining := {e2, e3, e8, e11}\<rparr>) \<subseteq> edges_remaining orc19
   \<and> nodes_remaining (orc19\<lparr>edges_remaining := {e2, e3, e8, e11}\<rparr>) \<subseteq> nodes_remaining orc19
   \<and> {e2, e3, e8, e11} = edges_remaining orc19 - {e9}"
proof -
  have h1: "iterates (iter_list all_edges) (edges_remaining orc19)"
    by (rule iterates_iter_list [OF edges_orc19])
  have h2: "get_action False (iter_list all_edges) orc19 (state_of [gR, gI, gQ] [gY, gD])
     = (Inr (Action ''LEFT-REMOTE'' ''A''), orc19\<lparr>edges_remaining := {e2, e3, e8, e11}\<rparr>)"
    by code_simp
  have h3: "discharging (Action ''LEFT-REMOTE'' ''A'')" by simp
  have h4: "{e2, e3, e8, e11} = edges_remaining orc19 - {e9}" by code_simp
  from C2_remaining_sets_shrink [OF h1 h2] h2 h3 h4 show ?thesis by blast
qed

text \<open>
  Claim C3. \<^verbatim>\<open>get_action\<close> returns \<^verbatim>\<open>REDUCE\<close> if and only if \<open>edges_remaining\<close> is not
  empty, the stack is not empty, and no edge of \<open>edges_remaining\<close> has the gold node of the
  top of the stack as its parent or as its child. The edge lists of that gold node are
  taken to agree with the end points of the remaining edges.
\<close>

theorem C3_reduce_iff_no_incident_edge:
  assumes "stack st \<noteq> [] \<longrightarrow> index_consistent (edges_remaining orc) (orig_node (last (stack st)))"
  shows "fst (get_action cs iter orc st) = Inr REDUCE \<longleftrightarrow>
         edges_remaining orc \<noteq> {} \<and> stack st \<noteq> [] \<and>
         (\<forall>e\<in>edges_remaining orc. ID (parent e) \<noteq> ID (orig_node (last (stack st)))
                                  \<and> ID (child e) \<noteq> ID (orig_node (last (stack st))))"
proof (cases "edges_remaining orc = {} \<or> stack st = []")
  case True
  then show ?thesis by (auto simp: get_action_def shift_or_raise_def)
next
  case False
  with assms have ic: "index_consistent (edges_remaining orc) (orig_node (last (stack st)))"
    by simp
  show ?thesis
    using False no_incident_iff [OF ic]
    by (simp add: get_action_def Let_def incoming_remaining_def outgoing_remaining_def
        unary_edges_not_REDUCE binary_or_swap_not_REDUCE)
qed

theorem C3_reduce_iff_no_incident_edge_witness:
  "fst (get_action False (iter_list all_edges) orc19 (state_of [gR, gI, gS, gB] [gY, gD]))
     = Inr REDUCE
   \<and> edges_remaining orc19 \<noteq> {}
   \<and> stack (state_of [gR, gI, gS, gB] [gY, gD]) \<noteq> []"
proof -
  let ?st = "state_of [gR, gI, gS, gB] [gY, gD]"
  have ic: "stack ?st \<noteq> [] \<longrightarrow>
      index_consistent (edges_remaining orc19) (orig_node (last (stack ?st)))"
    by code_simp
  have rhs: "edges_remaining orc19 \<noteq> {} \<and> stack ?st \<noteq> [] \<and>
      (\<forall>e\<in>edges_remaining orc19. ID (parent e) \<noteq> ID (orig_node (last (stack ?st)))
                                   \<and> ID (child e) \<noteq> ID (orig_node (last (stack ?st))))"
    by code_simp
  from C3_reduce_iff_no_incident_edge [OF ic, of False "iter_list all_edges"] rhs
  show ?thesis by blast
qed

text \<open>
  Claim C4, as the code has it. Whenever \<^verbatim>\<open>get_action\<close> returns a \<^verbatim>\<open>SWAP\<close>: without
  compound swapping the action carries \<^verbatim>\<open>None\<close> and the distance the loop measured is
  exactly 1; with compound swapping the action carries a distance \<open>D \<ge> 1\<close>, and \<open>related\<close>
  is a subset of the node IDs of \<^verbatim>\<open>stack[:-d-2]\<close> exactly for the values \<open>d < D\<close>. So \<open>D\<close>
  is the least value at which the subset condition fails, and \<open>D - 1\<close> is the greatest
  value at which it holds.
\<close>

theorem C4_swap_distance:
  assumes "fst (get_action cs iter orc st) = Inr (SWAP x)"
  shows "(\<not> cs \<longrightarrow> x = None \<and> swap_loop cs (related_ids orc (last (stack st))) (stack st) 0 = 1)
       \<and> (cs \<longrightarrow> (\<exists>D\<ge>1. x = Some D \<and>
              (\<forall>d. swap_condition (related_ids orc (last (stack st))) (stack st) d \<longleftrightarrow> d < D)))"
proof -
  let ?rel = "related_ids orc (last (stack st))"
  from get_action_SWAP [OF assms] have rel: "?rel \<noteq> {}"
    and b: "fst (binary_or_swap cs iter orc st (last (stack st))
               (stack st ! (length (stack st) - 2))) = Inr (SWAP x)" by simp_all
  from binary_or_swap_SWAP [OF b]
  have nz: "swap_loop cs ?rel (stack st) 0 \<noteq> 0"
    and x: "x = (if cs then Some (swap_loop cs ?rel (stack st) 0) else None)" by simp_all
  show ?thesis
  proof (cases cs)
    case False
    with nz swap_loop_noncompound [of ?rel "stack st"] x show ?thesis by simp
  next
    case True
    with nz x swap_loop_compound [OF rel, of "stack st"] show ?thesis by auto
  qed
qed

theorem C4_swap_distance_witness:
  "fst (get_action True (iter_list all_edges) orc_swap (state_of [gR, gX, gS, gQ] [gY]))
     = Inr (SWAP (Some 2))
   \<and> swap_condition (related_ids orc_swap (snode_of gQ)) (map snode_of [gR, gX, gS, gQ]) 1
   \<and> \<not> swap_condition (related_ids orc_swap (snode_of gQ)) (map snode_of [gR, gX, gS, gQ]) 2
   \<and> fst (get_action False (iter_list all_edges) orc_swap (state_of [gR, gX, gS, gQ] [gY]))
     = Inr (SWAP None)
   \<and> swap_loop False (related_ids orc_swap (snode_of gQ)) (map snode_of [gR, gX, gS, gQ]) 0 = 1"
proof -
  let ?st = "state_of [gR, gX, gS, gQ] [gY]"
  have h1: "fst (get_action True (iter_list all_edges) orc_swap ?st) = Inr (SWAP (Some 2))"
    by code_simp
  have h2: "fst (get_action False (iter_list all_edges) orc_swap ?st) = Inr (SWAP None)"
    by code_simp
  have s: "last (stack ?st) = snode_of gQ" "stack ?st = map snode_of [gR, gX, gS, gQ]"
    by (simp_all add: state_of_def)
  from C4_swap_distance [OF h1] C4_swap_distance [OF h2] h1 h2 show ?thesis
    unfolding s by auto
qed

text \<open>
  Claim C4 as stated fails: with compound swapping, for the stack \<open>1.1, 1.6, 1.3\<close> and the
  single remaining edge of \<open>1.3\<close> coming from \<open>1.1\<close>, the oracle returns \<^verbatim>\<open>SWAP(1)\<close>, and
  \<open>related\<close> is not a subset of the node IDs of \<^verbatim>\<open>stack[:-1-2]\<close>, which is empty.
\<close>

theorem C4_swap_distance_counterexample:
  "fst (get_action True (iter_list all_edges) orc_swap (state_of [gR, gS, gQ] [gY]))
     = Inr (SWAP (Some 1))
   \<and> \<not> swap_condition (related_ids orc_swap (last (stack (state_of [gR, gS, gQ] [gY]))))
         (stack (state_of [gR, gS, gQ] [gY])) 1"
  by code_simp

text \<open>
  Claim C5 fails on the code. In the passage \<open>gold2\<close> the edge \<open>f5\<close> from unit \<open>1.2\<close> to the
  implicit unit \<open>1.4\<close> is remote. With \<open>1.2\<close> on top of the stack, the third call for the
  states \<open>gold2_states\<close> and the sixth call for the states \<open>gold2_states_buffer\<close> return
  \<^verbatim>\<open>IMPLICIT\<close> and remove \<open>f5\<close>: the generator of line 66 does not test \<^verbatim>\<open>remote\<close>, as
  the one of line 64 does for \<^verbatim>\<open>NODE\<close>.
\<close>

theorem C5_implicit_discharges_remote_edge:
  "oracle_calls False (iter_list gold2_edges) (Oracle_init gold2) gold2_states
     = ([Inr SHIFT, Inr (NODE ''P'' rP), Inr (IMPLICIT (tag f5) (child f5))],
        \<lparr>nodes_remaining = {''1.3''}, edges_remaining = {e1, e2, f4, f6}\<rparr>)
   \<and> snd (oracle_calls False (iter_list gold2_edges) (Oracle_init gold2) (butlast gold2_states))
     = \<lparr>nodes_remaining = {''1.3'', ''1.4''}, edges_remaining = {e1, e2, f4, f5, f6}\<rparr>
   \<and> oracle_calls False (iter_list gold2_edges) (Oracle_init gold2) gold2_states_buffer
     = ([Inr SHIFT, Inr (NODE ''P'' rP), Inr REDUCE, Inr SHIFT, Inr (Action ''RIGHT-EDGE'' ''H''),
         Inr (IMPLICIT (tag f5) (child f5))],
        \<lparr>nodes_remaining = {''1.3''}, edges_remaining = {e2, f4, f6}\<rparr>)
   \<and> snd (oracle_calls False (iter_list gold2_edges) (Oracle_init gold2)
          (butlast gold2_states_buffer))
     = \<lparr>nodes_remaining = {''1.3'', ''1.4''}, edges_remaining = {e2, f4, f5, f6}\<rparr>
   \<and> remote f5"
  by code_simp

text \<open>
  Claim C6 fails on the code. For the passage \<open>gold\<close>, in the last of the states
  \<open>gold_states_buffer\<close>, with \<open>1.3\<close> on top of the stack and a buffer that is not empty, the
  \<^verbatim>\<open>IMPLICIT\<close> rule applies to the edge \<open>e9\<close>, and the call raises \<^verbatim>\<open>KeyError\<close> from
  \<^verbatim>\<open>nodes_remaining.remove\<close>: an exception although a rule applies and the buffer is not
  empty, and no action is returned.
\<close>

theorem C6_error_with_rule_and_buffer:
  "get_action False (iter_list all_edges) orc19 (state_of [gR, gI, gS, gQ] [gY, gD])
     = (Inl KeyError, orc19\<lparr>edges_remaining := {e2, e3, e8, e11}\<rparr>)
   \<and> buffer (state_of [gR, gI, gS, gQ] [gY, gD]) \<noteq> []
   \<and> find (\<lambda>e. implicit (child e)) (iter_list all_edges (outgoing_remaining orc19 (snode_of gQ)))
     = Some e9"
  by code_simp

text \<open>
  Claim C7. If edges remain, the stack is not empty, an edge incident to the top of the
  stack remains, and the node ID of the front of the buffer is the child of a remaining
  outgoing edge or the parent of a remaining incoming edge of the top of the stack, then
  \<^verbatim>\<open>get_action\<close> returns \<^verbatim>\<open>SHIFT\<close> and leaves the oracle unchanged, whatever the binary,
  swap and unary checks would find.
\<close>

theorem C7_shift_preferred:
  assumes "edges_remaining orc \<noteq> {}" and "stack st \<noteq> []"
    and "incoming_remaining orc (last (stack st)) \<union> outgoing_remaining orc (last (stack st)) \<noteq> {}"
    and "buffer st \<noteq> []"
    and "(\<exists>e\<in>outgoing_remaining orc (last (stack st)). ID (child e) = node_id (hd (buffer st)))
       \<or> (\<exists>e\<in>incoming_remaining orc (last (stack st)). ID (parent e) = node_id (hd (buffer st)))"
  shows "get_action cs iter orc st = (Inr SHIFT, orc)"
proof -
  from assms(5) have "node_id (hd (buffer st)) \<in> related_ids orc (last (stack st))"
    unfolding related_ids_def by force
  with assms(1-4) show ?thesis by (simp add: get_action_def Let_def)
qed

theorem C7_shift_preferred_witness:
  "get_action False (iter_list all_edges) orc19 (state_of [gR, gI, gS] [gY, gD])
     = (Inr SHIFT, orc19)
   \<and> edges_remaining orc19 \<noteq> {}
   \<and> node_id (hd (buffer (state_of [gR, gI, gS] [gY, gD]))) = ID (child e11)
   \<and> e11 \<in> outgoing_remaining orc19 (last (stack (state_of [gR, gI, gS] [gY, gD])))"
proof -
  let ?st = "state_of [gR, gI, gS] [gY, gD]"
  have h1: "edges_remaining orc19 \<noteq> {}" by code_simp
  have h2: "stack ?st \<noteq> []" by code_simp
  have h3: "incoming_remaining orc19 (last (stack ?st))
              \<union> outgoing_remaining orc19 (last (stack ?st)) \<noteq> {}" by code_simp
  have h4: "buffer ?st \<noteq> []" by code_simp
  have h5: "e11 \<in> outgoing_remaining orc19 (last (stack ?st))" by code_simp
  have h6: "node_id (hd (buffer ?st)) = ID (child e11)" by code_simp
  from h5 h6 have h7:
    "(\<exists>e\<in>outgoing_remaining orc19 (last (stack ?st)). ID (child e) = node_id (hd (buffer ?st)))
     \<or> (\<exists>e\<in>incoming_remaining orc19 (last (stack ?st)). ID (parent e) = node_id (hd (buffer ?st)))"
    by auto
  from C7_shift_preferred [OF h1 h2 h3 h4 h7, of False "iter_list all_edges"] h1 h5 h6
  show ?thesis by simp
qed




text \<open>
  Claim C9 fails on the code. For the passage \<open>gold\<close> the oracle is called for the parser
  states \<open>gold_states\<close>. The third call creates the implicit unit \<open>1.4\<close> from its parent
  \<open>1.2\<close> and removes its ID from \<open>nodes_remaining\<close>. The eighth call, with \<open>1.3\<close> on top
  of the stack, selects the remote edge \<open>e9\<close> from \<open>1.3\<close> to \<open>1.4\<close> for \<^verbatim>\<open>IMPLICIT\<close>,
  removes the edge, and raises \<^verbatim>\<open>KeyError\<close> when it removes the ID \<open>1.4\<close> a second time.
  The same happens in the twentieth call for the states \<open>gold_states_buffer\<close>.
\<close>

theorem C9_implicit_removal_raises:
  "oracle_calls False (iter_list all_edges) (Oracle_init gold) gold_states
     = ([Inr SHIFT, Inr (NODE ''P'' rP), Inr (IMPLICIT ''A'' rI), Inr SHIFT, Inr (NODE ''P'' rS),
         Inr SHIFT, Inr (NODE ''P'' rQ), Inl KeyError],
        \<lparr>nodes_remaining = {''1.5''}, edges_remaining = {e1, e2, e3, e6, e8, e11}\<rparr>)
   \<and> snd (oracle_calls False (iter_list all_edges) (Oracle_init gold) (butlast gold_states))
     = \<lparr>nodes_remaining = {''1.5''}, edges_remaining = {e1, e2, e3, e6, e8, e9, e11}\<rparr>
   \<and> oracle_calls False (iter_list all_edges) (Oracle_init gold) gold_states_buffer
     = ([Inr SHIFT, Inr (NODE ''P'' rP), Inr REDUCE, Inr SHIFT, Inr (Action ''RIGHT-EDGE'' ''H''),
         Inr (IMPLICIT ''A'' rI), Inr (IMPLICIT ''D'' rJ), Inr REDUCE, Inr SHIFT, Inr REDUCE,
         Inr SHIFT, Inr SHIFT, Inr (NODE ''P'' rS), Inr REDUCE, Inr SHIFT, Inr SHIFT,
         Inr (NODE ''P'' rQ), Inr REDUCE, Inr SHIFT, Inl KeyError],
        \<lparr>nodes_remaining = {}, edges_remaining = {e2, e3, e8, e11}\<rparr>)
   \<and> snd (oracle_calls False (iter_list all_edges) (Oracle_init gold)
          (butlast gold_states_buffer))
     = orc19
   \<and> implicit (child e9) \<and> ID (child e9) = ''1.4''"
  by code_simp

text \<open>
  Claim C10. With an empty stack, remaining edges and a buffer that is not empty,
  \<^verbatim>\<open>get_action\<close> returns \<^verbatim>\<open>SHIFT\<close> and leaves the oracle unchanged; and an action other
  than \<^verbatim>\<open>SHIFT\<close> and \<^verbatim>\<open>FINISH\<close> is only returned when the stack is not empty.
\<close>

theorem C10_empty_stack_shifts:
  "(stack st = [] \<and> edges_remaining orc \<noteq> {} \<and> buffer st \<noteq> []
      \<longrightarrow> get_action cs iter orc st = (Inr SHIFT, orc))
   \<and> (fst (get_action cs iter orc st) = Inr a \<and> stack_based a \<longrightarrow> stack st \<noteq> [])"
  by (auto simp: get_action_def shift_or_raise_def)

theorem C10_empty_stack_shifts_witness:
  "get_action False (iter_list all_edges) orc19 (state_of [] [gY, gD]) = (Inr SHIFT, orc19)
   \<and> stack (state_of [] [gY, gD]) = []
   \<and> fst (get_action False (iter_list all_edges) orc19 (state_of [gR, gI, gS, gB] [gY, gD]))
     = Inr REDUCE
   \<and> stack (state_of [gR, gI, gS, gB] [gY, gD]) \<noteq> []"
proof -
  let ?st = "state_of [] [gY, gD]"
  let ?st' = "state_of [gR, gI, gS, gB] [gY, gD]"
  have h1: "stack ?st = [] \<and> edges_remaining orc19 \<noteq> {} \<and> buffer ?st \<noteq> []" by code_simp
  have h2: "fst (get_action False (iter_list all_edges) orc19 ?st') = Inr REDUCE
            \<and> stack_based REDUCE"
    by code_simp
  from C10_empty_stack_shifts [of ?st orc19 False "iter_list all_edges"]
       C10_empty_stack_shifts [of ?st' orc19 False "iter_list all_edges" REDUCE] h1 h2
  show ?thesis by blast
qed

end
